theory Spec2Isabelle
  imports Main
begin

section \<open>CLMS downloader: a shallow embedding of \<open>PythonAPI/CLMS_downloader.py\<close>\<close>

text \<open>
  The script queries the HR-S&I catalogue page by page, writes the products found to a
  result file and downloads every product listed there.  Python strings are modelled as
  \<open>string\<close>, a raised exception as the left summand of a sum type, the attributes of the
  \<open>HRSIRequest\<close> object together with the effects of a run (logging calls, files, requests
  sent, time slept) as a record that every method takes and returns.
\<close>

subsection \<open>Exceptions and logging\<close>

datatype error =
    SystemExit int
  | ValueError
  | KeyError string
  | NameError string
  | TypeError
  | IndexError
  | AssertionError
  | MissingEntry nat string
  | IOError
  | RequestError
  | CalledProcessError

datatype level = DEBUG | INFO | WARNING | ERROR

subsection \<open>Strings\<close>

text \<open>
  \<open>str.upper\<close>, a character being a code point below 256.  The letters \<open>a\<close> to \<open>z\<close> and
  the letters from 0xE0 to 0xFE (the division sign 0xF7 is not one) become their capitals,
  32 code points lower; the sharp s, 0xDF, becomes \<open>SS\<close>; nothing else changes.  The
  capitals of the micro sign 0xB5 and of 0xFF lie beyond code point 255: a text with one of
  these two letters is outside the model.
\<close>

definition upper_char :: "char \<Rightarrow> string" where
  "upper_char c =
     (let n = (of_char c :: nat) in
      if (97 \<le> n \<and> n \<le> 122) \<or> (224 \<le> n \<and> n \<le> 254 \<and> n \<noteq> 247) then [char_of (n - 32)]
      else if n = 223 then ''SS''
      else [c])"

definition upper :: "string \<Rightarrow> string" where
  "upper s = concat (map upper_char s)"

text \<open>\<open>s.replace(' ', '+')\<close>.\<close>

definition replace_space :: "string \<Rightarrow> string" where
  "replace_space s = map (\<lambda>c. if c = CHR '' '' then CHR ''+'' else c) s"

text \<open>\<open>str(n)\<close> for an integer: decimal digits, a minus sign for a negative one.\<close>

fun str_nat :: "nat \<Rightarrow> string" where
  "str_nat n = (if n < 10 then [''0123456789'' ! n]
                else str_nat (n div 10) @ [''0123456789'' ! (n mod 10)])"

declare str_nat.simps [simp del]

definition str_int :: "int \<Rightarrow> string" where
  "str_int i = (if i < 0 then CHR ''-'' # str_nat (nat (- i)) else str_nat (nat i))"

text \<open>
  \<open>sep.join(xs)\<close> and \<open>s.split(sep)\<close> for a one-character separator.  \<open>split\<close> always
  returns at least one field.
\<close>

fun join :: "string \<Rightarrow> string list \<Rightarrow> string" where
  "join sep [] = []"
| "join sep [x] = x"
| "join sep (x # y # ys) = x @ sep @ join sep (y # ys)"

fun split :: "char \<Rightarrow> string \<Rightarrow> string list" where
  "split sep [] = [[]]"
| "split sep (c # cs) =
     (if c = sep then [] # split sep cs
      else (case split sep cs of f # fs \<Rightarrow> (c # f) # fs | [] \<Rightarrow> [[c]]))"

text \<open>
  \<open>str.strip()\<close> removes leading and trailing whitespace.  The whitespace characters
  below code point 256 are the ones listed.
\<close>

definition whitespace :: "char list" where
  "whitespace = [CHR 0x09, CHR 0x0A, CHR 0x0B, CHR 0x0C, CHR 0x0D, CHR 0x1C, CHR 0x1D,
                 CHR 0x1E, CHR 0x1F, CHR 0x20, CHR 0x85, CHR 0xA0]"

definition isspace :: "char \<Rightarrow> bool" where
  "isspace c = (c \<in> set whitespace)"

definition lstrip :: "string \<Rightarrow> string" where
  "lstrip s = dropWhile isspace s"

definition rstrip :: "string \<Rightarrow> string" where
  "rstrip s = rev (dropWhile isspace (rev s))"

definition strip :: "string \<Rightarrow> string" where
  "strip s = rstrip (lstrip s)"

subsection \<open>Date validation\<close>

text \<open>
  \<open>datetime.strptime(date_text, '%Y-%m-%dT%H:%M:%SZ')\<close>.  The format is compiled to
  the regular expression
  \<^verbatim>\<open>(\d\d\d\d)-(1[0-2]|0[1-9]|[1-9])-(3[0-1]|[1-2]\d|0[1-9]|[1-9]| [1-9])T\<close>
  \<^verbatim>\<open>(2[0-3]|[0-1]\d|\d):([0-5]\d|\d):(6[0-1]|[0-5]\d|\d)Z\<close>,
  matched ignoring case, and the whole text must be consumed.  No group can match one of
  the separators, so each field is the text up to the next separator.  The values found
  must then form a date and a time of day.
\<close>

definition digit_val :: "char \<Rightarrow> nat option" where
  "digit_val c = map_of (zip ''0123456789'' [0 ..< 10]) c"

fun number :: "string \<Rightarrow> nat option" where
  "number [a] = digit_val a"
| "number [a, b] =
     (case (digit_val a, digit_val b) of (Some x, Some y) \<Rightarrow> Some (10 * x + y) | _ \<Rightarrow> None)"
| "number _ = None"

definition field :: "nat \<Rightarrow> nat \<Rightarrow> string \<Rightarrow> nat option" where
  "field lo hi s =
     (case number s of Some n \<Rightarrow> if lo \<le> n \<and> n \<le> hi then Some n else None | None \<Rightarrow> None)"

definition day_field :: "string \<Rightarrow> nat option" where
  "day_field s = (case s of [a, b] \<Rightarrow> if a = CHR '' '' then field 1 9 [b] else field 1 31 s
                  | _ \<Rightarrow> field 1 31 s)"

definition year_field :: "string \<Rightarrow> nat option" where
  "year_field s =
     (case map digit_val s of
        [Some a, Some b, Some c, Some d] \<Rightarrow> Some (1000 * a + 100 * b + 10 * c + d)
      | _ \<Rightarrow> None)"

definition leap :: "nat \<Rightarrow> bool" where
  "leap y = (y mod 4 = 0 \<and> (y mod 100 \<noteq> 0 \<or> y mod 400 = 0))"

definition days_in_month :: "nat \<Rightarrow> nat \<Rightarrow> nat" where
  "days_in_month y m =
     (if m = 2 then (if leap y then 29 else 28)
      else if m \<in> {4, 6, 9, 11} then 30 else 31)"

text \<open>Cut \<open>s\<close> at the first character found in \<open>seps\<close>: the text before it, the text after it.\<close>

definition cut :: "char list \<Rightarrow> string \<Rightarrow> (string \<times> string) option" where
  "cut seps s =
     (case dropWhile (\<lambda>c. c \<notin> set seps) s of
        [] \<Rightarrow> None
      | _ # rest \<Rightarrow> Some (takeWhile (\<lambda>c. c \<notin> set seps) s, rest))"

definition valid_fields :: "string \<Rightarrow> string \<Rightarrow> string \<Rightarrow> string \<Rightarrow> string \<Rightarrow> string \<Rightarrow> bool" where
  "valid_fields ys ms ds hs mins ss =
     (case (year_field ys, field 1 12 ms, day_field ds,
            field 0 23 hs, field 0 59 mins, field 0 61 ss) of
        (Some y, Some m, Some d, Some _, Some _, Some sec) \<Rightarrow>
           1 \<le> y \<and> d \<le> days_in_month y m \<and> sec \<le> 59
      | _ \<Rightarrow> False)"

definition strptime :: "string \<Rightarrow> bool" where
  "strptime s =
     (case cut ''-'' s of None \<Rightarrow> False | Some (ys, s1) \<Rightarrow>
      (case cut ''-'' s1 of None \<Rightarrow> False | Some (ms, s2) \<Rightarrow>
      (case cut ''Tt'' s2 of None \<Rightarrow> False | Some (ds, s3) \<Rightarrow>
      (case cut '':'' s3 of None \<Rightarrow> False | Some (hs, s4) \<Rightarrow>
      (case cut '':'' s4 of None \<Rightarrow> False | Some (mins, s5) \<Rightarrow>
      (case cut ''Zz'' s5 of None \<Rightarrow> False | Some (ss, s6) \<Rightarrow>
         s6 = [] \<and> valid_fields ys ms ds hs mins ss))))))"

text \<open>\<open>validate_Rfc3339\<close>: every exception of the parse is turned into a \<open>ValueError\<close>.\<close>

definition validate_Rfc3339 :: "string \<Rightarrow> error + string" where
  "validate_Rfc3339 date_text = (if strptime date_text then Inr date_text else Inl ValueError)"

subsection \<open>JSON values, the object's state, the outside world\<close>

text \<open>
  A decoded JSON document.  \<open>JNum\<close> stands for the integers and for \<open>true\<close>/\<open>false\<close>,
  which Python compares and hashes as 1 and 0; a JSON object is the list of its entries
  in order, its keys distinct.
\<close>

datatype json =
    JNull
  | JNum int
  | JStr string
  | JArr "json list"
  | JObj "(string \<times> json) list"

text \<open>
  A launched \<open>curl\<close> command, by what it does: the token request with the user name and
  the password, the header probe of an address, the transfer of an address to a file.  An
  address is a product URL with the token appended to it.
\<close>

datatype command =
    CurlToken string string
  | CurlHead "string \<times> json"
  | CurlFetch "string \<times> json" string

text \<open>What a logging call is given: a text, or the values that the call formats.\<close>

datatype msg =
    Text string
  | Params "(string \<times> string) list"
  | TokenError json
  | Count nat "(json \<times> json) list"
  | Fetching string "string \<times> json"
  | Launching command
  | Downloaded string

text \<open>
  The attributes of an \<open>HRSIRequest\<close>, and what a run has done so far: the logging calls,
  the files written, the pages requested, the commands launched, the seconds slept, and
  the entry of the product list that each pass through the \<open>try\<close> block of \<open>download\<close>
  worked on.
\<close>

record hrsi =
  outputPath :: string
  hrsi_http_request :: "string option"
  hrsi_credential :: "string option"
  result_file :: "string option"
  log :: "(level \<times> msg) list"
  files :: "string \<Rightarrow> string option"
  requested :: "string list"
  commands :: "command list"
  slept :: "nat list"
  tried :: "string list list"

text \<open>
  The outside world.  \<open>http_get url\<close> is what \<open>requests.get(url)\<close> returns: whether the
  response is truthy (its status is below 400) and what \<open>response.json()\<close> gives.  The
  three other fields answer the \<open>n\<close>-th command that the run launches:
  \<open>eval(subprocess.check_output(cmd))\<close>, \<open>str(subprocess.check_output(cmd))\<close> and
  \<open>subprocess.check_call(cmd)\<close>.  Iterating over a Python set yields its elements in the
  order of the hash table, which \<open>hash\<close> stands for: any order of the elements is the one
  of some \<open>hash\<close>.
\<close>

record env =
  http_get :: "string \<Rightarrow> error + bool \<times> (error + json)"
  token_reply :: "nat \<Rightarrow> command \<Rightarrow> error + json"
  head_reply :: "nat \<Rightarrow> command \<Rightarrow> error + string"
  transfer :: "nat \<Rightarrow> command \<Rightarrow> error + unit"
  hash :: "json \<times> json \<Rightarrow> nat"

definition logging :: "level \<Rightarrow> msg \<Rightarrow> hrsi \<Rightarrow> hrsi" where
  "logging l m st = st\<lparr>log := log st @ [(l, m)]\<rparr>"

text \<open>\<open>'%s' % x\<close> for an attribute that may be \<open>None\<close>.\<close>

definition str_opt :: "string option \<Rightarrow> string" where
  "str_opt x = (case x of None \<Rightarrow> ''None'' | Some s \<Rightarrow> s)"

definition set_hrsi_http_request :: "string \<Rightarrow> hrsi \<Rightarrow> hrsi" where
  "set_hrsi_http_request r st =
     (logging INFO (Text (''The query '' @ r @ '' will be used to request HR-S&I products.'')) st)
       \<lparr>hrsi_http_request := Some r\<rparr>"

definition set_hrsi_credential :: "string option \<Rightarrow> hrsi \<Rightarrow> hrsi" where
  "set_hrsi_credential c st =
     (logging INFO
        (Text (''The file '' @ str_opt c @ '' will be used as credential to enable download.'')) st)
       \<lparr>hrsi_credential := c\<rparr>"

definition set_result_file :: "string \<Rightarrow> hrsi \<Rightarrow> hrsi" where
  "set_result_file f st =
     (logging INFO
        (Text (''The file '' @ f @ '' will be used as list of products to download.'')) st)
       \<lparr>result_file := Some f\<rparr>"

subsection \<open>Query Builder: \<open>build_request\<close>\<close>

definition URL_ROOT :: string where
  "URL_ROOT = ''https://cryo.land.copernicus.eu/resto/api/collections/HRSI/search.json''"

definition URL_STATIC_PARAMS :: "(string \<times> string) list" where
  "URL_STATIC_PARAMS =
     [(''status'', ''all''), (''maxRecords'', ''1000''), (''dataset'', ''ESA-DATASET''),
      (''sortParam'', ''startDate''), (''sortOrder'', ''descending'')]"

text \<open>\<open>d[k] = v\<close> and \<open>d.update(e)\<close> on a dictionary kept in insertion order.\<close>

definition dict_set :: "('k \<times> 'v) list \<Rightarrow> 'k \<Rightarrow> 'v \<Rightarrow> ('k \<times> 'v) list" where
  "dict_set d k v =
     (if k \<in> fst ` set d then map (\<lambda>(k', v'). if k' = k then (k', v) else (k', v')) d
      else d @ [(k, v)])"

definition dict_update :: "('k \<times> 'v) list \<Rightarrow> ('k \<times> 'v) list \<Rightarrow> ('k \<times> 'v) list" where
  "dict_update d e = foldl (\<lambda>d (k, v). dict_set d k v) d e"

text \<open>The arguments of \<open>build_request\<close>; \<open>None\<close> is Python's \<open>None\<close>.\<close>

record search_filter =
  productIdentifier :: "string option"
  productType :: "string option"
  mission :: "string option"
  obsDateMin :: "string option"
  obsDateMax :: "string option"
  publicationDateMin :: "string option"
  publicationDateMax :: "string option"
  cloudCoverageMax :: "int option"
  geometry :: "string option"
  textualSearch :: "string option"

text \<open>
  One \<open>if arg: url_params[key] = enc(arg)\<close> statement.  The test is Python's truth value:
  \<open>None\<close>, the empty string and the number 0 are false.
\<close>

definition if_str ::
  "string option \<Rightarrow> string \<Rightarrow> (string \<Rightarrow> error + string) \<Rightarrow>
   (string \<times> string) list \<Rightarrow> error + (string \<times> string) list" where
  "if_str arg key enc p =
     (case arg of
        None \<Rightarrow> Inr p
      | Some s \<Rightarrow>
          if s = [] then Inr p
          else (case enc s of Inl e \<Rightarrow> Inl e | Inr v \<Rightarrow> Inr (dict_set p key v)))"

definition if_int ::
  "int option \<Rightarrow> string \<Rightarrow> (int \<Rightarrow> string) \<Rightarrow>
   (string \<times> string) list \<Rightarrow> error + (string \<times> string) list" where
  "if_int arg key enc p =
     (case arg of
        None \<Rightarrow> Inr p
      | Some i \<Rightarrow> if i = 0 then Inr p else Inr (dict_set p key (enc i)))"

definition param_steps ::
  "search_filter \<Rightarrow> ((string \<times> string) list \<Rightarrow> error + (string \<times> string) list) list" where
  "param_steps f =
     [if_str (productIdentifier f) ''productIdentifier'' (\<lambda>s. Inr (''%25'' @ upper s @ ''%25'')),
      if_str (productType f) ''productType'' (\<lambda>s. Inr (upper s)),
      if_str (mission f) ''mission'' (\<lambda>s. Inr (upper s)),
      if_str (obsDateMin f) ''startDate'' validate_Rfc3339,
      if_str (obsDateMax f) ''completionDate'' validate_Rfc3339,
      if_str (publicationDateMin f) ''publishedAfter'' validate_Rfc3339,
      if_str (publicationDateMax f) ''publishedBefore'' validate_Rfc3339,
      if_int (cloudCoverageMax f) ''cloudCover'' (\<lambda>i. ''[0,'' @ str_int i @ '']''),
      if_str (geometry f) ''geometry'' Inr,
      if_str (textualSearch f) ''q'' (\<lambda>s. Inr (replace_space s))]"

text \<open>The statements in order; an exception ends the sequence.\<close>

definition url_params :: "search_filter \<Rightarrow> error + (string \<times> string) list" where
  "url_params f =
     foldl (\<lambda>r step. case r of Inl e \<Rightarrow> Inl e | Inr p \<Rightarrow> step p) (Inr []) (param_steps f)"

definition query_string :: "(string \<times> string) list \<Rightarrow> string" where
  "query_string p = URL_ROOT @ ''?'' @ join ''&'' (map (\<lambda>(key, value). key @ ''='' @ value) p)"

definition build_request :: "search_filter \<Rightarrow> hrsi \<Rightarrow> (error + unit) \<times> hrsi" where
  "build_request f st =
     (case url_params f of
        Inl e \<Rightarrow> (Inl e, st)
      | Inr p \<Rightarrow>
          if p \<noteq> [] then
            (let p' = dict_update p URL_STATIC_PARAMS;
                 st1 = logging INFO (Text ''Query parameters: '') st;
                 st2 = logging INFO (Params p') st1
             in (Inr (), set_hrsi_http_request (query_string p') st2))
          else
            (Inl (SystemExit (- 2)),
             logging ERROR
               (Text ''No query parameters were provided, no query was generated'') st))"

subsection \<open>Feature Extractor: \<open>read_json_param\<close>, \<open>read_hrsi_feature\<close>\<close>

definition andthen :: "error + 'a \<Rightarrow> ('a \<Rightarrow> error + 'b) \<Rightarrow> error + 'b" where
  "andthen r f = (case r of Inl e \<Rightarrow> Inl e | Inr x \<Rightarrow> f x)"

text \<open>\<open>v[k]\<close> for a string \<open>k\<close>: only a dictionary can be indexed by a string.\<close>

fun getitem :: "json \<Rightarrow> string \<Rightarrow> error + json" where
  "getitem (JObj kvs) k = (case map_of kvs k of Some v \<Rightarrow> Inr v | None \<Rightarrow> Inl (KeyError k))"
| "getitem _ k = Inl TypeError"

text \<open>
  \<open>read_json_param\<close>: a \<open>KeyError\<close> becomes an exception whose message names the index of
  the feature and the parameter; any other exception passes.
\<close>

definition read_json_param :: "json \<Rightarrow> json \<Rightarrow> nat \<Rightarrow> string \<Rightarrow> error + json" where
  "read_json_param json_root feature feature_index json_param =
     (case andthen (getitem feature ''properties'') (\<lambda>props. getitem props json_param) of
        Inl (KeyError _) \<Rightarrow> Inl (MissingEntry feature_index json_param)
      | r \<Rightarrow> r)"

definition read_hrsi_feature :: "json \<Rightarrow> json \<Rightarrow> nat \<Rightarrow> error + json \<times> json" where
  "read_hrsi_feature json_root feature feature_index =
     (let read = read_json_param json_root feature feature_index in
      andthen (read ''productIdentifier'') (\<lambda>hrsi_path.
      andthen (read ''title'') (\<lambda>hrsi_title.
      andthen (read ''startDate'') (\<lambda>hrsi_obs_date.
      andthen (read ''productType'') (\<lambda>hrsi_product_type.
      andthen (read ''mission'') (\<lambda>hrsi_mission.
      andthen (andthen (andthen (read ''services'') (\<lambda>s. getitem s ''download''))
                 (\<lambda>d. getitem d ''url'')) (\<lambda>hrsi_url.
      andthen (andthen (andthen (read ''services'') (\<lambda>s. getitem s ''download''))
                 (\<lambda>d. getitem d ''size'')) (\<lambda>hrsi_size.
      andthen (read ''published'') (\<lambda>hrsi_publication_date.
      Inr (hrsi_url, hrsi_title))))))))))"

subsection \<open>Paginated Search Executor: \<open>request_page\<close>, \<open>execute_request\<close>\<close>

text \<open>What a \<open>for\<close> loop over a JSON value iterates on.\<close>

fun iterate :: "json \<Rightarrow> error + json list" where
  "iterate (JArr vs) = Inr vs"
| "iterate (JObj kvs) = Inr (map (\<lambda>(k, v). JStr k) kvs)"
| "iterate (JStr s) = Inr (map (\<lambda>c. JStr [c]) s)"
| "iterate _ = Inl TypeError"

text \<open>The loop over \<open>enumerate(features)\<close>, from index \<open>i\<close> on.\<close>

fun read_features :: "json \<Rightarrow> json list \<Rightarrow> nat \<Rightarrow> error + (json \<times> json) list" where
  "read_features json_root [] i = Inr []"
| "read_features json_root (feature # fs) i =
     andthen (read_hrsi_feature json_root feature i) (\<lambda>p.
     andthen (read_features json_root fs (i + 1)) (\<lambda>ps. Inr (p # ps)))"

definition page_url :: "string \<Rightarrow> nat \<Rightarrow> string" where
  "page_url http_request page_index = http_request @ ''&page='' @ str_nat page_index"

text \<open>
  \<open>request_page\<close>: the request is logged and sent, then the response is read.  When the key \<open>features\<close> is missing, the handler of the \<open>KeyError\<close>
  builds the message of its \<open>logging.error\<close> call from \<open>url_params_page\<close>, a name that is
  bound nowhere in the module: evaluating the argument raises \<open>NameError\<close>, and the
  logging call is not reached.
\<close>

definition page_products :: "env \<Rightarrow> string \<Rightarrow> error + (json \<times> json) list" where
  "page_products ev current_page =
     andthen (http_get ev current_page) (\<lambda>(response, body).
     andthen (if response then body else Inr (JObj [])) (\<lambda>json_root.
     andthen (case getitem json_root ''features'' of
                Inl (KeyError _) \<Rightarrow> Inl (NameError ''url_params_page'')
              | r \<Rightarrow> r) (\<lambda>features.
     andthen (iterate features) (\<lambda>fs.
     read_features json_root fs 0))))"

definition note_request :: "string \<Rightarrow> nat \<Rightarrow> hrsi \<Rightarrow> hrsi" where
  "note_request http_request page_index st =
     (let st1 = logging INFO (Text (''Processing result page #'' @ str_nat page_index)) st
      in st1\<lparr>requested := requested st1 @ [page_url http_request page_index]\<rparr>)"

definition request_page ::
  "env \<Rightarrow> string \<Rightarrow> nat \<Rightarrow> hrsi \<Rightarrow> (error + (json \<times> json) list) \<times> hrsi" where
  "request_page ev http_request page_index st =
     (page_products ev (page_url http_request page_index),
      note_request http_request page_index st)"

definition first_exit_condition :: "int option \<Rightarrow> nat \<Rightarrow> bool" where
  "first_exit_condition max_requested_pages requested_pages =
     (case max_requested_pages of None \<Rightarrow> False | Some m \<Rightarrow> int requested_pages \<ge> m)"

text \<open>
  The \<open>while\<close> loop of \<open>execute_request\<close>.  Nothing bounds it when no ceiling is given and
  no page comes back empty: the result \<open>None\<close> is the run that never leaves the loop.
\<close>

partial_function (option) fetch_pages ::
  "env \<Rightarrow> string \<Rightarrow> int option \<Rightarrow> nat \<Rightarrow> (json \<times> json) list \<Rightarrow> hrsi \<Rightarrow>
   ((error + (json \<times> json) list) \<times> hrsi) option" where
  "fetch_pages ev req max_requested_pages requested_pages hrsi_products st =
     (if first_exit_condition max_requested_pages requested_pages then Some (Inr hrsi_products, st)
      else
        (let r = request_page ev req (requested_pages + 1) st in
         case fst r of
           Inl e \<Rightarrow> Some (Inl e, snd r)
         | Inr hrsi_products_aux \<Rightarrow>
             if hrsi_products_aux = [] then Some (Inr hrsi_products, snd r)
             else fetch_pages ev req max_requested_pages (requested_pages + 1)
                    (hrsi_products @ hrsi_products_aux) (snd r)))"

declare fetch_pages.simps [code]

text \<open>
  \<open>set(hrsi_products)\<close>: lists and dictionaries cannot be hashed.  The elements of the set
  are those of the list, once each; \<open>set_iter\<close> is the order in which a loop visits them.
\<close>

fun hashable :: "json \<Rightarrow> bool" where
  "hashable (JArr _) = False"
| "hashable (JObj _) = False"
| "hashable _ = True"

definition set_iter :: "env \<Rightarrow> (json \<times> json) list \<Rightarrow> (json \<times> json) list" where
  "set_iter ev xs = sort_key (hash ev) (remdups xs)"

text \<open>\<open>";".join(res) + "\n"\<close>: every item of \<open>res\<close> has to be a string.\<close>

fun result_line :: "json \<times> json \<Rightarrow> error + string" where
  "result_line (JStr url, JStr title) = Inr (join '';'' [url, title] @ [CHR 0x0A])"
| "result_line _ = Inl TypeError"

fun result_lines :: "(json \<times> json) list \<Rightarrow> error + string list" where
  "result_lines [] = Inr []"
| "result_lines (res # rs) =
     andthen (result_line res) (\<lambda>l. andthen (result_lines rs) (\<lambda>ls. Inr (l # ls)))"

text \<open>\<open>os.path.join(a, b)\<close>.\<close>

definition path_join :: "string \<Rightarrow> string \<Rightarrow> string" where
  "path_join a b =
     (if take 1 b = ''/'' then b
      else if a = [] \<or> last a = CHR ''/'' then a @ b else a @ ''/'' @ b)"

text \<open>The part of \<open>execute_request\<close> that follows the loop.\<close>

definition save_results :: "env \<Rightarrow> (json \<times> json) list \<Rightarrow> hrsi \<Rightarrow> (error + unit) \<times> hrsi" where
  "save_results ev hrsi_products st =
     (let total_count = length hrsi_products;
          st1 = logging DEBUG (Count total_count hrsi_products) st
      in
        if \<not> (\<forall>(url, title) \<in> set hrsi_products. hashable url \<and> hashable title)
        then (Inl TypeError, st1)
        else
          (let products = set_iter ev hrsi_products;
               st2 = (if length products \<noteq> total_count
                      then logging WARNING (Text ''Duplicated HRSI products found.'') st1
                      else st1);
               st3 = logging INFO
                       (Text (''Found '' @ str_nat (length products) @ '' HR-S&I products.'')) st2;
               st4 = set_result_file (path_join (outputPath st3) ''result_file.txt'') st3;
               path = path_join (outputPath st3) ''result_file.txt'';
               st5 = logging INFO (Text (''Listing results in '' @ path)) st4
           in
             case result_lines products of
               Inl e \<Rightarrow> (Inl e, st5\<lparr>files := (files st5)(path \<mapsto> [])\<rparr>)
             | Inr ls \<Rightarrow> (Inr (), st5\<lparr>files := (files st5)(path \<mapsto> concat ls)\<rparr>)))"

definition execute_request ::
  "env \<Rightarrow> int option \<Rightarrow> hrsi \<Rightarrow> ((error + unit) \<times> hrsi) option" where
  "execute_request ev max_requested_pages st =
     (case hrsi_http_request st of
        None \<Rightarrow>
          Some (Inl (SystemExit (- 2)),
                logging ERROR (Text ''No hrsi_http_request was provided or configured'') st)
      | Some req \<Rightarrow>
          (case fetch_pages ev req max_requested_pages 0 []
                  (logging INFO (Text (''Requesting : '' @ req)) st) of
             None \<Rightarrow> None
           | Some (Inl e, st') \<Rightarrow> Some (Inl e, st')
           | Some (Inr hrsi_products, st') \<Rightarrow> Some (save_results ev hrsi_products st')))"

subsection \<open>Reading text files\<close>

text \<open>
  A file opened for reading in text mode: \<open>\r\n\<close> and \<open>\r\<close> are read as \<open>\n\<close>, and
  \<open>readlines\<close> returns the lines with their line ends.
\<close>

fun universal_newlines :: "string \<Rightarrow> string" where
  "universal_newlines [] = []"
| "universal_newlines [c] = (if c = CHR 0x0D then [CHR 0x0A] else [c])"
| "universal_newlines (c # d # cs) =
     (if c = CHR 0x0D \<and> d = CHR 0x0A then CHR 0x0A # universal_newlines cs
      else if c = CHR 0x0D then CHR 0x0A # universal_newlines (d # cs)
      else c # universal_newlines (d # cs))"

fun keepends :: "string \<Rightarrow> string list" where
  "keepends [] = []"
| "keepends (c # cs) =
     (if c = CHR 0x0A then [c] # keepends cs
      else (case keepends cs of [] \<Rightarrow> [[c]] | l # ls \<Rightarrow> (c # l) # ls))"

definition readlines :: "string \<Rightarrow> string list" where
  "readlines content = keepends (universal_newlines content)"

definition readline :: "string \<Rightarrow> string" where
  "readline content = (case readlines content of [] \<Rightarrow> [] | l # _ \<Rightarrow> l)"

subsection \<open>Authenticated Downloader\<close>

text \<open>\<open>x in v\<close> for a string \<open>x\<close>.\<close>

fun substring :: "string \<Rightarrow> string \<Rightarrow> bool" where
  "substring p [] = (p = [])"
| "substring p (c # cs) = (take (length p) (c # cs) = p \<or> substring p cs)"

fun contains :: "json \<Rightarrow> string \<Rightarrow> error + bool" where
  "contains (JObj kvs) x = Inr (x \<in> fst ` set kvs)"
| "contains (JArr vs) x = Inr (JStr x \<in> set vs)"
| "contains (JStr s) x = Inr (substring x s)"
| "contains _ x = Inl TypeError"

text \<open>\<open>xs[i]\<close> on a list.\<close>

definition index :: "'a list \<Rightarrow> nat \<Rightarrow> error + 'a" where
  "index xs i = (if i < length xs then Inr (xs ! i) else Inl IndexError)"

definition launch :: "command \<Rightarrow> hrsi \<Rightarrow> hrsi" where
  "launch c st = st\<lparr>commands := commands st @ [c]\<rparr>"

definition get_token :: "env \<Rightarrow> string list \<Rightarrow> hrsi \<Rightarrow> (error + json) \<times> hrsi" where
  "get_token ev credentials st =
     (case andthen (index credentials 0) (\<lambda>username.
           andthen (index credentials 1) (\<lambda>password. Inr (CurlToken username password))) of
        Inl e \<Rightarrow> (Inl e, st)
      | Inr command \<Rightarrow>
          (case token_reply ev (length (commands st)) command of
             Inl e \<Rightarrow> (Inl e, launch command st)
           | Inr out \<Rightarrow>
               (case contains out ''error'' of
                  Inl e \<Rightarrow> (Inl e, launch command st)
                | Inr has_error \<Rightarrow>
                    (getitem out ''access_token'',
                     if has_error then logging ERROR (TokenError out) (launch command st)
                     else launch command st))))"

definition hrsi_adress ::
  "env \<Rightarrow> string \<Rightarrow> string list \<Rightarrow> hrsi \<Rightarrow> (error + string \<times> json) \<times> hrsi" where
  "hrsi_adress ev adress_id credentials st =
     (case get_token ev credentials st of
        (Inl e, st') \<Rightarrow> (Inl e, st')
      | (Inr token, st') \<Rightarrow> (Inr (adress_id, token), st'))"

text \<open>
  The remote file name in the headers: the first match of \<^verbatim>\<open>filename=(\S+)\<close>, cut at the
  first backslash followed by \<open>r\<close>.
\<close>

fun findall_filename :: "string \<Rightarrow> error + string" where
  "findall_filename [] = Inl IndexError"
| "findall_filename (c # cs) =
     (if take 9 (c # cs) = ''filename='' \<and> takeWhile (\<lambda>c. \<not> isspace c) (drop 9 (c # cs)) \<noteq> []
      then Inr (takeWhile (\<lambda>c. \<not> isspace c) (drop 9 (c # cs)))
      else findall_filename cs)"

fun before :: "string \<Rightarrow> string \<Rightarrow> string" where
  "before p [] = []"
| "before p (c # cs) = (if take (length p) (c # cs) = p then [] else c # before p cs)"

definition endswith :: "string \<Rightarrow> string \<Rightarrow> bool" where
  "endswith s suffix = (take (length suffix) (rev s) = rev suffix)"

definition download_with_curl ::
  "env \<Rightarrow> string \<times> json \<Rightarrow> string option \<Rightarrow> hrsi \<Rightarrow> (error + string) \<times> hrsi" where
  "download_with_curl ev product_url dl_filename st =
     (let (name, st1) =
            (case dl_filename of
               Some n \<Rightarrow> (Inr n, st)
             | None \<Rightarrow>
                 (andthen (head_reply ev (length (commands st)) (CurlHead product_url)) (\<lambda>headers.
                  andthen (findall_filename headers) (\<lambda>found.
                  if endswith (before [CHR 0x5C, CHR ''r''] found) ''.zip''
                  then Inr (before [CHR 0x5C, CHR ''r''] found) else Inl AssertionError)),
                  launch (CurlHead product_url) st))
      in case name of
           Inl e \<Rightarrow> (Inl e, st1)
         | Inr n \<Rightarrow>
             (let st2 = logging INFO (Fetching n product_url) st1;
                  hrsi_filepath = path_join (outputPath st2) n;
                  st3 = logging DEBUG (Text (''DL filepath: '' @ hrsi_filepath)) st2;
                  command = CurlFetch product_url hrsi_filepath;
                  st4 = launch command st3
              in case transfer ev (length (commands st3)) command of
                   Inl e \<Rightarrow> (Inl e, st4)
                 | Inr _ \<Rightarrow>
                     (Inr hrsi_filepath,
                      logging DEBUG (Launching command) st4)))"

text \<open>The body of the \<open>try\<close> block, up to the call of \<open>download_with_curl\<close>.\<close>

definition attempt ::
  "env \<Rightarrow> string list \<Rightarrow> string list \<Rightarrow> hrsi \<Rightarrow> (error + string) \<times> hrsi" where
  "attempt ev credentials info_product st =
     (let st0 = st\<lparr>tried := tried st @ [info_product]\<rparr> in
      case index info_product 0 of
        Inl e \<Rightarrow> (Inl e, st0)
      | Inr product_url \<Rightarrow>
          (case hrsi_adress ev product_url credentials st0 of
             (Inl e, st1) \<Rightarrow> (Inl e, st1)
           | (Inr adress, st1) \<Rightarrow>
               (let dl_filename =
                      (if length info_product \<ge> 2
                       then Some (last (split CHR ''/'' (info_product ! 1)) @ ''.zip'')
                       else None)
                in download_with_curl ev adress dl_filename st1)))"

text \<open>
  The \<open>while\<close> loop of one product: \<open>ntries\<close> counts the failed passes, a second is the
  unit of \<open>slept\<close>.
\<close>

function retry ::
  "env \<Rightarrow> string list \<Rightarrow> string list \<Rightarrow> nat \<Rightarrow> nat \<Rightarrow> hrsi \<Rightarrow> (error + unit) \<times> hrsi" where
  "retry ev credentials info_product max_retry ntries st =
     (if ntries < max_retry then
        (let r = attempt ev credentials info_product st in
         case fst r of
           Inr hrsi_filepath \<Rightarrow> (Inr (), logging INFO (Downloaded hrsi_filepath) (snd r))
         | Inl e \<Rightarrow>
             if ntries + 1 = max_retry then (Inl e, snd r)
             else retry ev credentials info_product max_retry (ntries + 1)
                    (logging INFO
                       (Text (''  - try #'' @ str_nat (ntries + 1) @ '' failed, retrying...''))
                       ((snd r)\<lparr>slept := slept (snd r) @ [5 * (ntries + 1)]\<rparr>)))
      else (Inr (), st))"
  by pat_completeness auto
termination
  by (relation "measure (\<lambda>(ev, credentials, info_product, max_retry, ntries, st). max_retry - ntries)")
     auto

declare retry.simps [simp del]

definition max_retry :: nat where
  "max_retry = 1"

text \<open>The \<open>for\<close> loop over the product list: an exception leaves it.\<close>

fun download_products ::
  "env \<Rightarrow> string list \<Rightarrow> string list list \<Rightarrow> hrsi \<Rightarrow> (error + unit) \<times> hrsi" where
  "download_products ev credentials [] st = (Inr (), st)"
| "download_products ev credentials (info_product # rest) st =
     (case retry ev credentials info_product max_retry 0 st of
        (Inl e, st') \<Rightarrow> (Inl e, st')
      | (Inr _, st') \<Rightarrow> download_products ev credentials rest st')"

text \<open>The list comprehension that parses the result file.\<close>

definition product_list :: "string \<Rightarrow> string list list" where
  "product_list content =
     map (\<lambda>x. split CHR '';'' (strip x)) (filter (\<lambda>x. strip x \<noteq> []) (readlines content))"

definition download :: "env \<Rightarrow> hrsi \<Rightarrow> (error + unit) \<times> hrsi" where
  "download ev st =
     (case hrsi_credential st of
        None \<Rightarrow>
          (Inl (SystemExit (- 2)), logging ERROR (Text ''No HR-S&I credential file was provided'') st)
      | Some cred_file \<Rightarrow>
          (case files st cred_file of
             None \<Rightarrow>
               (Inl IOError,
                logging ERROR (Text (''Error while parsing credential file: '' @ cred_file)) st)
           | Some cred \<Rightarrow>
               (let credentials = split CHR '':'' (rstrip (readline cred)) in
                case result_file st of
                  None \<Rightarrow>
                    (Inl (SystemExit (- 2)), logging ERROR (Text ''No result_file was provided'') st)
                | Some file \<Rightarrow>
                    (case files st file of
                       None \<Rightarrow>
                         (Inl IOError,
                          logging ERROR
                            (Text (''Error while parsing result_file file: '' @ file)) st)
                     | Some content \<Rightarrow>
                         download_products ev credentials (product_list content) st))))"

subsection \<open>The command line: \<open>main\<close>\<close>

text \<open>
  The parsed arguments.  \<open>HRSIRequest\<close> is the constructor: \<open>fs\<close> are the files on disk,
  \<open>existing\<close> tells whether the output directory is there, \<open>output_dir\<close> is its absolute
  path.
\<close>

record args =
  output_dir :: string
  query :: bool
  query_and_download :: bool
  download_only :: bool
  queryURL :: "string option"
  filters :: search_filter
  hrsi_credentials :: "string option"
  result_file_arg :: "string option"

definition HRSIRequest :: "(string \<Rightarrow> string option) \<Rightarrow> bool \<Rightarrow> string \<Rightarrow> hrsi" where
  "HRSIRequest fs existing path =
     \<lparr>outputPath = path, hrsi_http_request = None, hrsi_credential = None, result_file = None,
      log = [if existing then (WARNING, Text (''Existing directory '' @ path))
             else (INFO, Text (''Creating directory '' @ path))],
      files = fs, requested = [], commands = [], slept = [], tried = []\<rparr>"

definition truthy :: "string option \<Rightarrow> bool" where
  "truthy x = (case x of None \<Rightarrow> False | Some s \<Rightarrow> s \<noteq> [])"

text \<open>The three parts of \<open>main\<close> after the construction of the object.\<close>

definition query_part :: "env \<Rightarrow> args \<Rightarrow> hrsi \<Rightarrow> ((error + unit) \<times> hrsi) option" where
  "query_part ev a st =
     (if query a \<or> query_and_download a then
        (if truthy (queryURL a)
         then execute_request ev None (set_hrsi_http_request (the (queryURL a)) st)
         else (case build_request (filters a) st of
                 (Inl e, st') \<Rightarrow> Some (Inl e, st')
               | (Inr _, st') \<Rightarrow> execute_request ev None st'))
      else Some (Inr (), st))"

definition result_file_part :: "args \<Rightarrow> hrsi \<Rightarrow> hrsi" where
  "result_file_part a st =
     (if download_only a then
        (if truthy (result_file_arg a) then set_result_file (the (result_file_arg a)) st
         else logging ERROR (Text ''No HR-S&I result file was provided'') st)
      else st)"

definition download_part :: "env \<Rightarrow> args \<Rightarrow> hrsi \<Rightarrow> (error + unit) \<times> hrsi" where
  "download_part ev a st =
     (if query_and_download a \<or> download_only a then
        (case download ev (logging INFO (Text ''Start downloading...'')
                             (set_hrsi_credential (hrsi_credentials a) st)) of
           (Inl e, st') \<Rightarrow> (Inl e, st')
         | (Inr _, st') \<Rightarrow> (Inr (), logging INFO (Text ''Downloading complete!'') st'))
      else (Inr (), logging INFO (Text ''No products were downloaded.'') st))"

definition main ::
  "env \<Rightarrow> (string \<Rightarrow> string option) \<Rightarrow> bool \<Rightarrow> args \<Rightarrow> ((error + unit) \<times> hrsi) option" where
  "main ev fs existing a =
     (case query_part ev a (HRSIRequest fs existing (output_dir a)) of
        None \<Rightarrow> None
      | Some (Inl e, st) \<Rightarrow> Some (Inl e, st)
      | Some (Inr _, st) \<Rightarrow>
          (case download_part ev a (result_file_part a st) of
             (Inl e, st') \<Rightarrow> Some (Inl e, st')
           | (Inr _, st') \<Rightarrow> Some (Inr (), logging INFO (Text ''End.'') st')))"

text \<open>
  The exit status of the process: 0 after a normal return, the argument of \<open>sys.exit\<close>
  modulo 256, and 1 after any other exception.
\<close>

definition exit_status :: "error + unit \<Rightarrow> int" where
  "exit_status r =
     (case r of Inr _ \<Rightarrow> 0 | Inl (SystemExit n) \<Rightarrow> n mod 256 | Inl _ \<Rightarrow> 1)"

subsection \<open>Sample inputs\<close>

text \<open>A filter with no field set, a freshly constructed object, a world where nothing answers.\<close>

definition no_filter :: search_filter where
  "no_filter =
     \<lparr>productIdentifier = None, productType = None, mission = None, obsDateMin = None,
      obsDateMax = None, publicationDateMin = None, publicationDateMax = None,
      cloudCoverageMax = None, geometry = None, textualSearch = None\<rparr>"

definition no_files :: "string \<Rightarrow> string option" where
  "no_files = (\<lambda>path. None)"

definition fresh :: hrsi where
  "fresh = HRSIRequest no_files False ''/out''"

definition offline :: env where
  "offline =
     \<lparr>http_get = (\<lambda>url. Inl RequestError),
      token_reply = (\<lambda>n c. Inl CalledProcessError),
      head_reply = (\<lambda>n c. Inl CalledProcessError),
      transfer = (\<lambda>n c. Inl CalledProcessError),
      hash = (\<lambda>p. 0)\<rparr>"

definition query_args :: args where
  "query_args =
     \<lparr>output_dir = ''/out'', query = True, query_and_download = False, download_only = False,
      queryURL = None, filters = no_filter, hrsi_credentials = None, result_file_arg = None\<rparr>"

text \<open>
  A token reply that carries an error and a token, and a world that gives it and where
  every transfer works.
\<close>

definition error_and_token :: json where
  "error_and_token = JObj [(''error'', JStr ''invalid_grant''), (''access_token'', JStr ''T'')]"

definition lenient :: env where
  "lenient = offline\<lparr>token_reply := (\<lambda>n c. Inr error_and_token), transfer := (\<lambda>n c. Inr ())\<rparr>"

text \<open>A catalogue that answers every page with a body that has no \<open>features\<close> entry.\<close>

definition not_found :: env where
  "not_found =
     offline\<lparr>http_get := (\<lambda>url. Inr (True, Inr (JObj [(''ErrorMessage'', JStr ''Not Found'')])))\<rparr>"

text \<open>
  A world where the second command of the run, the first transfer, fails and every other
  one works; an object set up for \<open>download\<close>, with a list of two products.
\<close>

definition flaky :: env where
  "flaky =
     offline\<lparr>token_reply := (\<lambda>n c. Inr (JObj [(''access_token'', JStr ''T'')])),
             transfer := (\<lambda>n c. if n = 1 then Inl CalledProcessError else Inr ())\<rparr>"

definition ready :: hrsi where
  "ready =
     fresh\<lparr>hrsi_credential := Some ''cred'', result_file := Some ''list'',
           files := (\<lambda>path. if path = ''cred'' then Some ''me:pw''
                             else if path = ''list'' then Some ''u;t\<newline>v;w\<newline>''
                             else None)\<rparr>"

text \<open>
  A world where the fourth command of the run, the transfer of the second product, fails;
  an object set up for \<open>download\<close> whose list has blank lines and padded lines.
\<close>

definition second_fails :: env where
  "second_fails =
     offline\<lparr>token_reply := (\<lambda>n c. Inr (JObj [(''access_token'', JStr ''T'')])),
             transfer := (\<lambda>n c. if n = 3 then Inl CalledProcessError else Inr ())\<rparr>"

definition listing :: hrsi where
  "listing =
     fresh\<lparr>hrsi_credential := Some ''cred'', result_file := Some ''list'',
           files := (\<lambda>path. if path = ''cred'' then Some ''me:pw''
                             else if path = ''list''
                             then Some ''u;t\<newline>\<newline>  \<newline> v;w \<newline>''
                             else None)\<rparr>"

subsection \<open>The result list, as the specification describes it\<close>

text \<open>
  A line is blank when it is empty or made of whitespace only.  The entries of a result
  list are its lines that are not blank, in file order, each one without the whitespace
  around it and split at the semicolons.
\<close>

definition blank :: "string \<Rightarrow> bool" where
  "blank l = list_all isspace l"

definition entries :: "string \<Rightarrow> string list list" where
  "entries content =
     map (\<lambda>l. split CHR '';'' (strip l)) (filter (\<lambda>l. \<not> blank l) (readlines content))"

text \<open>
  A catalogue with two pages of features and nothing after them; the products of its
  pages; an object whose query has been set; products found, one of them twice.
\<close>

definition feature :: "string \<Rightarrow> string \<Rightarrow> json" where
  "feature url title =
     JObj [(''properties'',
            JObj [(''productIdentifier'', JStr ''/HRSI/p''), (''title'', JStr title),
                  (''startDate'', JStr ''2020-06-02T00:00:00Z''), (''productType'', JStr ''FSC''),
                  (''mission'', JStr ''S2''),
                  (''services'', JObj [(''download'', JObj [(''url'', JStr url), (''size'', JNum 5)])]),
                  (''published'', JStr ''2020-06-03T00:00:00Z'')])]"




definition found_twice :: "(string \<times> string) list" where
  "found_twice = [(''u2'', ''t2''), (''u1'', ''t1''), (''u2'', ''t2'')]"

subsection \<open>References and their lines, as the specification describes them\<close>

text \<open>
  A product reference is a pair of a URL and a title, both strings; its line in the result
  file is \<open>url;title\<close>, and the fields read back from that line are the two strings.
  A reference is storable when neither string contains a semicolon or a line break, the URL
  does not start with whitespace and the title does not end with whitespace.
\<close>

definition jpair :: "string \<times> string \<Rightarrow> json \<times> json" where
  "jpair r = (JStr (fst r), JStr (snd r))"

definition line_of :: "string \<times> string \<Rightarrow> string" where
  "line_of r = fst r @ '';'' @ snd r @ [CHR 0x0A]"

definition fields_of :: "string \<times> string \<Rightarrow> string list" where
  "fields_of r = [fst r, snd r]"

definition result_path :: "hrsi \<Rightarrow> string" where
  "result_path st = path_join (outputPath st) ''result_file.txt''"

definition plain :: "string \<Rightarrow> bool" where
  "plain s = (CHR '';'' \<notin> set s \<and> CHR 0x0A \<notin> set s \<and> CHR 0x0D \<notin> set s)"

definition storable :: "string \<times> string \<Rightarrow> bool" where
  "storable r =
     (plain (fst r) \<and> plain (snd r)
      \<and> (fst r = [] \<or> \<not> isspace (hd (fst r))) \<and> (snd r = [] \<or> \<not> isspace (last (snd r))))"

text \<open>The state after the pages listed have been requested.\<close>

definition noted :: "string \<Rightarrow> nat list \<Rightarrow> hrsi \<Rightarrow> hrsi" where
  "noted req is st = foldl (\<lambda>st i. note_request req i st) st is"

text \<open>
  Three filters: an observation date that is not a timestamp, a product type with a date
  and a cloud cover, a product type with the cloud cover 0.
\<close>

definition bad_date :: search_filter where
  "bad_date = no_filter\<lparr>obsDateMin := Some ''2020-06-02''\<rparr>"

definition june_snow :: search_filter where
  "june_snow = no_filter\<lparr>productType := Some ''fsc'', obsDateMin := Some ''2020-06-02T00:00:00Z'',
                          cloudCoverageMax := Some 20\<rparr>"

definition cloud_free :: search_filter where
  "cloud_free = no_filter\<lparr>productType := Some ''fsc'', cloudCoverageMax := Some 0\<rparr>"

subsection \<open>The keys of a filter, as the specification describes them\<close>

text \<open>
  The catalogue keys of the fields that are given, in the order of the fields.  A text
  field is given when it has a non-empty value, the cloud cover when it has a value.  The
  dates of a filter are in order when each date that is given is a valid timestamp.
\<close>

definition given :: "bool \<Rightarrow> string \<Rightarrow> string list" where
  "given b key = (if b then [key] else [])"

definition filter_keys :: "search_filter \<Rightarrow> string list" where
  "filter_keys f =
     given (truthy (productIdentifier f)) ''productIdentifier''
     @ given (truthy (productType f)) ''productType''
     @ given (truthy (mission f)) ''mission''
     @ given (truthy (obsDateMin f)) ''startDate''
     @ given (truthy (obsDateMax f)) ''completionDate''
     @ given (truthy (publicationDateMin f)) ''publishedAfter''
     @ given (truthy (publicationDateMax f)) ''publishedBefore''
     @ given (cloudCoverageMax f \<noteq> None) ''cloudCover''
     @ given (truthy (geometry f)) ''geometry''
     @ given (truthy (textualSearch f)) ''q''"

definition valid_date :: "string option \<Rightarrow> bool" where
  "valid_date x = (case x of None \<Rightarrow> True | Some s \<Rightarrow> s = [] \<or> strptime s)"

definition dates_ok :: "search_filter \<Rightarrow> bool" where
  "dates_ok f =
     (valid_date (obsDateMin f) \<and> valid_date (obsDateMax f)
      \<and> valid_date (publicationDateMin f) \<and> valid_date (publicationDateMax f))"

section \<open>Properties\<close>

subsection \<open>An empty filter\<close>

lemma url_params_no_filter: "url_params no_filter = Inr []"
  by (simp add: url_params_def param_steps_def no_filter_def if_str_def if_int_def)

lemma build_request_no_filter:
  "build_request no_filter st =
     (Inl (SystemExit (- 2)),
      logging ERROR (Text ''No query parameters were provided, no query was generated'') st)"
  by (simp add: build_request_def url_params_no_filter)

text \<open>
  C7.  In a query mode without a query URL, a filter with no field set makes \<open>main\<close> stop
  in \<open>build_request\<close>: the usage error is logged, the process exits through
  \<open>sys.exit(-2)\<close>, that is with status 254, no query has been configured, no page has been
  requested and no command launched.
\<close>

theorem empty_filter_exits:
  assumes "query a \<or> query_and_download a" and "\<not> truthy (queryURL a)"
    and "filters a = no_filter"
  shows "\<exists>st. main ev fs existing a = Some (Inl (SystemExit (- 2)), st)
           \<and> exit_status (Inl (SystemExit (- 2))) = 254
           \<and> (ERROR, Text ''No query parameters were provided, no query was generated'')
               \<in> set (log st)
           \<and> hrsi_http_request st = None \<and> requested st = [] \<and> commands st = []"
  using assms
  by (simp add: main_def query_part_def build_request_no_filter exit_status_def logging_def
      HRSIRequest_def)

theorem empty_filter_exits_witness:
  "(query query_args \<or> query_and_download query_args) \<and> \<not> truthy (queryURL query_args)
   \<and> filters query_args = no_filter
   \<and> (\<exists>st. main offline no_files False query_args = Some (Inl (SystemExit (- 2)), st)
           \<and> exit_status (Inl (SystemExit (- 2))) = 254
           \<and> (ERROR, Text ''No query parameters were provided, no query was generated'')
               \<in> set (log st)
           \<and> hrsi_http_request st = None \<and> requested st = [] \<and> commands st = [])"
proof -
  have h: "query query_args \<or> query_and_download query_args" "\<not> truthy (queryURL query_args)"
      "filters query_args = no_filter"
    by (simp_all add: query_args_def truthy_def)
  from empty_filter_exits [OF h] h show ?thesis by blast
qed

subsection \<open>Token retrieval\<close>

text \<open>
  C9, as the code has it.  When the reply of the authentication endpoint contains an
  \<open>error\<close> entry, \<open>__get_token__\<close> logs the reply as an error and then returns what
  \<open>out['access_token']\<close> gives: the token when the reply has one, a \<open>KeyError\<close> when it
  has none.
\<close>

theorem token_with_error_field:
  assumes "token_reply ev (length (commands st)) (CurlToken username password) = Inr out"
    and "contains out ''error'' = Inr True"
  shows "fst (get_token ev (username # password # rest) st) = getitem out ''access_token''
       \<and> (ERROR, TokenError out)
           \<in> set (log (snd (get_token ev (username # password # rest) st)))"
  using assms by (simp add: get_token_def index_def andthen_def logging_def launch_def)

theorem token_with_error_field_witness:
  "token_reply lenient (length (commands fresh)) (CurlToken ''me'' ''pw'') = Inr error_and_token
   \<and> contains error_and_token ''error'' = Inr True
   \<and> fst (get_token lenient [''me'', ''pw''] fresh) = getitem error_and_token ''access_token''
   \<and> (ERROR, TokenError error_and_token)
       \<in> set (log (snd (get_token lenient [''me'', ''pw''] fresh)))"
proof -
  have h: "token_reply lenient (length (commands fresh)) (CurlToken ''me'' ''pw'')
             = Inr error_and_token"
    "contains error_and_token ''error'' = Inr True"
    by (simp_all add: lenient_def offline_def error_and_token_def)
  from token_with_error_field [OF h, of "[]"] h show ?thesis by blast
qed

text \<open>
  A reply with both entries: the token is returned, and the pass of \<open>download\<close> goes on
  to transfer the product with it.
\<close>

theorem token_returned_despite_error:
  "contains error_and_token ''error'' = Inr True
   \<and> token_reply lenient 0 (CurlToken ''me'' ''pw'') = Inr error_and_token
   \<and> fst (get_token lenient [''me'', ''pw''] fresh) = Inr (JStr ''T'')
   \<and> fst (attempt lenient [''me'', ''pw''] [''u'', ''t''] fresh) = Inr ''/out/t.zip''
   \<and> commands (snd (attempt lenient [''me'', ''pw''] [''u'', ''t''] fresh))
       = [CurlToken ''me'' ''pw'', CurlFetch (''u'', JStr ''T'') ''/out/t.zip'']"
  by code_simp

subsection \<open>A page without \<open>features\<close>\<close>

lemma page_without_features:
  assumes "http_get ev (page_url req i) = Inr (True, Inr (JObj kvs))"
    and "''features'' \<notin> fst ` set kvs"
  shows "request_page ev req i st = (Inl (NameError ''url_params_page''), note_request req i st)"
proof -
  from assms(2) have "map_of kvs ''features'' = None" by (simp add: map_of_eq_None_iff)
  with assms(1) show ?thesis
    by (simp add: request_page_def page_products_def andthen_def)
qed

text \<open>
  C2, on a catalogue whose pages have no \<open>features\<close> entry.  The run ends on the first
  page with the \<open>NameError\<close> of the handler: no error has been logged, and no result file
  has been written.
\<close>

theorem missing_features_run:
  "(case execute_request not_found None (set_hrsi_http_request ''q'' fresh) of
      None \<Rightarrow> False
    | Some (r, st) \<Rightarrow>
        r = Inl (NameError ''url_params_page'') \<and> ERROR \<notin> fst ` set (log st)
        \<and> requested st = [''q&page=1''] \<and> files st ''/out/result_file.txt'' = None)"
  by code_simp

subsection \<open>The retry loop\<close>

lemma retry_first_failure:
  assumes "fst (attempt ev c p st) = Inl e"
  shows "retry ev c p max_retry 0 st = (Inl e, snd (attempt ev c p st))"
  using assms by (simp add: retry.simps max_retry_def)

text \<open>
  C3, on a product whose first pass fails and whose second pass would succeed.  With
  \<open>max_retry = 1\<close> the first failure is raised again at once: \<open>download\<close> fails, the
  product has been tried once, and nothing has been slept.
\<close>

theorem no_second_attempt:
  "fst (attempt flaky [''me'', ''pw''] [''u'', ''t''] fresh) = Inl CalledProcessError
   \<and> fst (attempt flaky [''me'', ''pw''] [''u'', ''t'']
            (snd (attempt flaky [''me'', ''pw''] [''u'', ''t''] fresh))) = Inr ''/out/t.zip''
   \<and> fst (download flaky ready) = Inl CalledProcessError
   \<and> tried (snd (download flaky ready)) = [[''u'', ''t'']]
   \<and> slept (snd (download flaky ready)) = []"
  by code_simp

text \<open>The same loop with the bound 2 makes the second pass, after sleeping 5 seconds.\<close>

lemma retry_bound_two:
  "fst (retry flaky [''me'', ''pw''] [''u'', ''t''] 2 0 fresh) = Inr ()
   \<and> tried (snd (retry flaky [''me'', ''pw''] [''u'', ''t''] 2 0 fresh))
       = [[''u'', ''t''], [''u'', ''t'']]
   \<and> slept (snd (retry flaky [''me'', ''pw''] [''u'', ''t''] 2 0 fresh)) = [5]"
  by code_simp

subsection \<open>The loop over the product list\<close>

lemma tried_get_token: "tried (snd (get_token ev c st)) = tried st"
  by (simp add: get_token_def launch_def logging_def split: sum.splits)

lemma tried_hrsi_adress: "tried (snd (hrsi_adress ev u c st)) = tried st"
  using tried_get_token [of ev c st]
  by (auto simp: hrsi_adress_def split: prod.splits sum.splits)

lemma tried_download_with_curl: "tried (snd (download_with_curl ev a n st)) = tried st"
  by (auto simp: download_with_curl_def launch_def logging_def Let_def
      split: prod.splits sum.splits option.splits)

lemma tried_attempt: "tried (snd (attempt ev c p st)) = tried st @ [p]"
proof (cases "index p 0")
  case (Inl e)
  then show ?thesis by (simp add: attempt_def)
next
  case (Inr u)
  show ?thesis
  proof (cases "hrsi_adress ev u c (st\<lparr>tried := tried st @ [p]\<rparr>)")
    case (Pair r st1)
    with tried_hrsi_adress [of ev u c "st\<lparr>tried := tried st @ [p]\<rparr>"]
    have t: "tried st1 = tried st @ [p]" by simp
    show ?thesis
    proof (cases r)
      case (Inl e)
      with Inr Pair t show ?thesis by (simp add: attempt_def)
    next
      case (Inr a)
      with \<open>index p 0 = Inr u\<close> Pair t show ?thesis
        by (simp add: attempt_def tried_download_with_curl)
    qed
  qed
qed

lemma retry_once:
  "retry ev c p max_retry 0 st =
     (case fst (attempt ev c p st) of
        Inl e \<Rightarrow> (Inl e, snd (attempt ev c p st))
      | Inr path \<Rightarrow> (Inr (), logging INFO (Downloaded path) (snd (attempt ev c p st))))"
  by (simp add: retry.simps max_retry_def split: sum.splits)

lemma tried_retry: "tried (snd (retry ev c p max_retry 0 st)) = tried st @ [p]"
  by (simp add: retry_once tried_attempt logging_def split: sum.splits)

lemma retry_raises_iff:
  "fst (retry ev c p max_retry 0 st) = Inl e \<longleftrightarrow> fst (attempt ev c p st) = Inl e"
  by (simp add: retry_once split: sum.splits)

lemma download_products_append:
  "download_products ev c (xs @ ys) st =
     (case download_products ev c xs st of
        (Inl e, st') \<Rightarrow> (Inl e, st')
      | (Inr u, st') \<Rightarrow> download_products ev c ys st')"
  by (induction xs arbitrary: st) (auto split: prod.splits sum.splits)

lemma tried_download_products_ok:
  "download_products ev c ps st = (Inr u, st') \<Longrightarrow> tried st' = tried st @ ps"
proof (induction ps arbitrary: st)
  case Nil
  then show ?case by simp
next
  case (Cons p ps)
  obtain r st1 where r: "retry ev c p max_retry 0 st = (r, st1)" by (cases "retry ev c p max_retry 0 st")
  with Cons.prems obtain v where "r = Inr v" and rest: "download_products ev c ps st1 = (Inr u, st')"
    by (cases r) auto
  from tried_retry [of ev c p st] r have "tried st1 = tried st @ [p]" by simp
  with Cons.IH [OF rest] show ?case by simp
qed

lemma tried_download_products:
  "\<exists>k \<le> length ps. tried (snd (download_products ev c ps st)) = tried st @ take k ps"
proof (induction ps arbitrary: st)
  case Nil
  then show ?case by simp
next
  case (Cons p ps)
  obtain r st1 where r: "retry ev c p max_retry 0 st = (r, st1)" by (cases "retry ev c p max_retry 0 st")
  from tried_retry [of ev c p st] r have t: "tried st1 = tried st @ [p]" by simp
  show ?case
  proof (cases r)
    case (Inl e)
    with r t have "tried (snd (download_products ev c (p # ps) st)) = tried st @ take 1 (p # ps)"
      by simp
    then show ?thesis by (intro exI [of _ 1]) simp
  next
    case (Inr v)
    from Cons.IH [of st1] obtain k where k: "k \<le> length ps"
      "tried (snd (download_products ev c ps st1)) = tried st1 @ take k ps" by blast
    with r t Inr have "tried (snd (download_products ev c (p # ps) st)) = tried st @ take (Suc k) (p # ps)"
      by simp
    with k(1) show ?thesis by (intro exI [of _ "Suc k"]) simp
  qed
qed

text \<open>
  C5.  When the products \<open>xs\<close> have been downloaded and the loop of the next product \<open>p\<close>
  raises, \<open>download\<close> ends there with that exception, in the state of the failure: the
  entries tried are those of \<open>xs\<close> and \<open>p\<close>, and what follows \<open>p\<close> in the list plays no
  part.
\<close>

theorem failure_halts_run:
  assumes "download_products ev c xs st = (Inr (), st1)"
    and "retry ev c p max_retry 0 st1 = (Inl e, st2)"
  shows "download_products ev c (xs @ p # ys) st = (Inl e, st2)
       \<and> tried st2 = tried st @ xs @ [p]"
proof -
  from assms have "download_products ev c (xs @ p # ys) st = (Inl e, st2)"
    by (simp add: download_products_append)
  moreover from tried_download_products_ok [OF assms(1)] tried_retry [of ev c p st1] assms(2)
  have "tried st2 = tried st @ xs @ [p]" by simp
  ultimately show ?thesis by simp
qed

theorem failure_halts_run_witness:
  "download_products second_fails [''me'', ''pw''] [[''u'', ''t'']] fresh
     = (Inr (), snd (download_products second_fails [''me'', ''pw''] [[''u'', ''t'']] fresh))
   \<and> download_products second_fails [''me'', ''pw''] [[''u'', ''t''], [''v'', ''w''], [''x'', ''y'']] fresh
       = (Inl CalledProcessError,
          snd (download_products second_fails [''me'', ''pw''] [[''u'', ''t''], [''v'', ''w'']] fresh))
   \<and> tried (snd (download_products second_fails [''me'', ''pw''] [[''u'', ''t''], [''v'', ''w'']] fresh))
       = [[''u'', ''t''], [''v'', ''w'']]"
proof -
  let ?c = "[''me'', ''pw'']"
  let ?st1 = "snd (download_products second_fails ?c [[''u'', ''t'']] fresh)"
  let ?st2 = "snd (download_products second_fails ?c [[''u'', ''t''], [''v'', ''w'']] fresh)"
  have f1: "fst (download_products second_fails ?c [[''u'', ''t'']] fresh) = Inr ()"
    by code_simp
  then have h1: "download_products second_fails ?c [[''u'', ''t'']] fresh = (Inr (), ?st1)"
    by (simp add: prod_eq_iff)
  have f2: "fst (retry second_fails ?c [''v'', ''w''] max_retry 0 ?st1) = Inl CalledProcessError"
    by code_simp
  have s2: "snd (retry second_fails ?c [''v'', ''w''] max_retry 0 ?st1) = ?st2"
    using h1 f2 by (cases "retry second_fails ?c [''v'', ''w''] max_retry 0 ?st1")
      (simp split: prod.splits sum.splits)
  from f2 s2 have h2: "retry second_fails ?c [''v'', ''w''] max_retry 0 ?st1 = (Inl CalledProcessError, ?st2)"
    by (simp add: prod_eq_iff)
  have t: "tried fresh = []" by (simp add: fresh_def HRSIRequest_def)
  from failure_halts_run [OF h1 h2, of "[[''x'', ''y'']]"] h1 t show ?thesis by simp
qed

subsection \<open>The entries of the result list\<close>

lemma strip_empty_iff: "strip l = [] \<longleftrightarrow> blank l"
proof -
  have "dropWhile isspace (rev (dropWhile isspace l)) = [] \<longleftrightarrow> list_all isspace l"
    by (metis dropWhile_eq_Nil_conv list_all_iff rev_is_Nil_conv set_rev set_dropWhileD dropWhile_idem)
  then show ?thesis by (simp add: strip_def rstrip_def lstrip_def blank_def)
qed

lemma product_list_entries: "product_list content = entries content"
  by (simp add: product_list_def entries_def strip_empty_iff)

lemma split_not_Nil: "split sep s \<noteq> []"
  by (induction s) (auto split: list.splits)

text \<open>
  C10.  The list that \<open>download\<close> works on is the entries of the result file: blank lines
  are skipped, the others are kept in file order and split at the semicolons, so that each
  has a first field, the URL.  The entries tried are the first \<open>k\<close> of them, and all of
  them when \<open>download\<close> returns.
\<close>

theorem attempted_products:
  assumes "hrsi_credential st = Some cf" and "files st cf = Some cred"
    and "result_file st = Some rf" and "files st rf = Some content"
  shows "product_list content = entries content
       \<and> (\<forall>e \<in> set (entries content). e \<noteq> [])
       \<and> (\<exists>k \<le> length (entries content).
             tried (snd (download ev st)) = tried st @ take k (entries content))
       \<and> (fst (download ev st) = Inr () \<longrightarrow>
             tried (snd (download ev st)) = tried st @ entries content)"
proof -
  let ?c = "split CHR '':'' (rstrip (readline cred))"
  from assms have d: "download ev st = download_products ev ?c (product_list content) st"
    by (simp add: download_def)
  have e: "product_list content = entries content" by (rule product_list_entries)
  have "\<forall>e \<in> set (entries content). e \<noteq> []"
    by (auto simp: entries_def split_not_Nil)
  moreover from tried_download_products [of "entries content" ev ?c st] d e
  have "\<exists>k \<le> length (entries content).
          tried (snd (download ev st)) = tried st @ take k (entries content)" by simp
  moreover have "fst (download ev st) = Inr () \<longrightarrow>
          tried (snd (download ev st)) = tried st @ entries content"
  proof
    assume "fst (download ev st) = Inr ()"
    with d e have "download_products ev ?c (entries content) st = (Inr (), snd (download ev st))"
      by (simp add: prod_eq_iff)
    from tried_download_products_ok [OF this] show "tried (snd (download ev st)) = tried st @ entries content" .
  qed
  ultimately show ?thesis using e by blast
qed

theorem attempted_products_witness:
  "hrsi_credential listing = Some ''cred'' \<and> files listing ''cred'' = Some ''me:pw''
   \<and> result_file listing = Some ''list''
   \<and> files listing ''list'' = Some ''u;t\<newline>\<newline>  \<newline> v;w \<newline>''
   \<and> entries ''u;t\<newline>\<newline>  \<newline> v;w \<newline>'' = [[''u'', ''t''], [''v'', ''w'']]
   \<and> fst (download lenient listing) = Inr ()
   \<and> tried (snd (download lenient listing)) = [[''u'', ''t''], [''v'', ''w'']]"
proof -
  have h: "hrsi_credential listing = Some ''cred''" "files listing ''cred'' = Some ''me:pw''"
    "result_file listing = Some ''list''"
    "files listing ''list'' = Some ''u;t\<newline>\<newline>  \<newline> v;w \<newline>''"
    by (simp_all add: listing_def fresh_def HRSIRequest_def)
  have e: "entries ''u;t\<newline>\<newline>  \<newline> v;w \<newline>'' = [[''u'', ''t''], [''v'', ''w'']]"
    by code_simp
  have f: "fst (download lenient listing) = Inr ()" by code_simp
  have t: "tried listing = []" by (simp add: listing_def fresh_def HRSIRequest_def)
  from attempted_products [OF h, of lenient] f
  have "tried (snd (download lenient listing))
          = tried listing @ entries ''u;t\<newline>\<newline>  \<newline> v;w \<newline>''"
    by blast
  with h e f t show ?thesis by simp
qed

subsection \<open>The loop over the pages\<close>










subsection \<open>Unique products\<close>


lemma set_iter_set: "set (set_iter ev xs) = set xs"
  by (simp add: set_iter_def)


lemma set_iter_length: "length (set_iter ev xs) = card (set xs)"
  by (simp add: set_iter_def length_remdups_card_conv)


lemma set_iter_shorter: "\<not> distinct xs \<Longrightarrow> length (set_iter ev xs) \<noteq> length xs"
  using card_distinct [of xs] by (auto simp: set_iter_length)


lemma outputPath_logging [simp]: "outputPath (logging l m st) = outputPath st"
  by (simp add: logging_def)

lemma outputPath_noted [simp]: "outputPath (noted req is st) = outputPath st"
  unfolding noted_def
  by (induction "is" arbitrary: st) (simp_all add: note_request_def logging_def Let_def)

lemma result_path_cong: "outputPath st' = outputPath st \<Longrightarrow> result_path st' = result_path st"
  by (simp add: result_path_def)

lemma map_subset_image:
  "set ys \<subseteq> f ` S \<Longrightarrow> \<exists>xs. ys = map f xs \<and> set xs \<subseteq> S"
proof (induction ys)
  case Nil
  then show ?case by simp
next
  case (Cons y ys)
  then obtain xs x where "ys = map f xs" "set xs \<subseteq> S" "y = f x" "x \<in> S" by auto
  then have "y # ys = map f (x # xs) \<and> set (x # xs) \<subseteq> S" by simp
  then show ?case by (rule exI [where x = "x # xs"])
qed

lemma inj_jpair: "inj jpair"
  by (auto simp: inj_on_def jpair_def prod_eq_iff)

lemma hashable_strings: "\<forall>(u, t) \<in> set (map jpair L). hashable u \<and> hashable t"
  by (auto simp: jpair_def)

lemma result_lines_strings: "result_lines (map jpair L) = Inr (map line_of L)"
  by (induction L) (simp_all add: jpair_def line_of_def andthen_def)

lemma save_results_ok:
  assumes "\<forall>(u, t) \<in> set ps. hashable u \<and> hashable t"
    and "result_lines (set_iter ev ps) = Inr ls"
  shows "fst (save_results ev ps st) = Inr ()"
    and "files (snd (save_results ev ps st)) (result_path st) = Some (concat ls)"
    and "result_file (snd (save_results ev ps st)) = Some (result_path st)"
    and "\<not> distinct ps \<Longrightarrow> (WARNING, Text ''Duplicated HRSI products found.'') \<in> set (log (snd (save_results ev ps st)))"
    and "requested (snd (save_results ev ps st)) = requested st"
  using assms set_iter_shorter [of ps ev]
  by (simp_all add: save_results_def Let_def result_path_def set_result_file_def logging_def)





subsection \<open>Writing the result list and reading it back\<close>

lemma universal_newlines_id: "CHR 0x0D \<notin> set s \<Longrightarrow> universal_newlines s = s"
  by (induction s rule: universal_newlines.induct) auto

lemma keepends_line: "CHR 0x0A \<notin> set l \<Longrightarrow> keepends (l @ CHR 0x0A # rest) = (l @ [CHR 0x0A]) # keepends rest"
  by (induction l) auto

lemma split_plain: "sep \<notin> set s \<Longrightarrow> split sep s = [s]"
  by (induction s) auto

lemma split_first: "sep \<notin> set u \<Longrightarrow> split sep (u @ sep # rest) = u # split sep rest"
  by (induction u) auto

lemma isspace_facts: "isspace (CHR 0x0A)" "\<not> isspace CHR '';''"
  by (simp_all add: isspace_def whitespace_def)

lemma lstrip_id: "s = [] \<or> \<not> isspace (hd s) \<Longrightarrow> lstrip s = s"
  by (cases s) (simp_all add: lstrip_def)

lemma rstrip_id: "s = [] \<or> \<not> isspace (last s) \<Longrightarrow> rstrip s = s"
  by (cases s rule: rev_cases) (simp_all add: rstrip_def)

lemma rstrip_newline: "rstrip (s @ [CHR 0x0A]) = rstrip s"
  by (simp add: rstrip_def isspace_facts)

lemma strip_line:
  assumes "storable r"
  shows "strip (line_of r) = fst r @ '';'' @ snd r"
proof -
  let ?s = "fst r @ '';'' @ snd r"
  from assms have "?s = [] \<or> \<not> isspace (hd ?s)"
    by (cases "fst r") (simp_all add: storable_def isspace_facts)
  then have "lstrip (?s @ [CHR 0x0A]) = ?s @ [CHR 0x0A]"
    by (intro lstrip_id) (auto simp: hd_append)
  moreover from assms have "?s = [] \<or> \<not> isspace (last ?s)"
    by (cases "snd r" rule: rev_cases) (simp_all add: storable_def isspace_facts)
  then have "rstrip ?s = ?s" by (rule rstrip_id)
  ultimately show ?thesis
    using rstrip_newline [of ?s] by (simp add: strip_def line_of_def)
qed

lemma split_line:
  assumes "storable r"
  shows "split CHR '';'' (strip (line_of r)) = fields_of r"
  using assms
  by (simp add: strip_line split_first split_plain storable_def plain_def fields_of_def)

lemma keepends_lines:
  "\<forall>r \<in> set L. storable r \<Longrightarrow> keepends (concat (map line_of L)) = map line_of L"
proof (induction L)
  case Nil
  then show ?case by simp
next
  case (Cons r L)
  then have "CHR 0x0A \<notin> set (fst r @ '';'' @ snd r)" by (simp add: storable_def plain_def)
  from keepends_line [OF this, of "concat (map line_of L)"]
  have k: "keepends ((fst r @ '';'' @ snd r) @ CHR 0x0A # concat (map line_of L))
             = ((fst r @ '';'' @ snd r) @ [CHR 0x0A]) # keepends (concat (map line_of L))" .
  have e: "concat (map line_of (r # L))
             = (fst r @ '';'' @ snd r) @ CHR 0x0A # concat (map line_of L)"
    by (simp add: line_of_def)
  have l: "line_of r = (fst r @ '';'' @ snd r) @ [CHR 0x0A]" by (simp add: line_of_def)
  from Cons have "keepends (concat (map line_of L)) = map line_of L" by simp
  with k show ?case unfolding e by (simp add: l)
qed

lemma readlines_lines:
  assumes "\<forall>r \<in> set L. storable r"
  shows "readlines (concat (map line_of L)) = map line_of L"
proof -
  from assms have "CHR 0x0D \<notin> set (concat (map line_of L))"
    by (auto simp: line_of_def storable_def plain_def)
  then show ?thesis by (simp add: readlines_def universal_newlines_id keepends_lines [OF assms])
qed

lemma product_list_lines:
  assumes "\<forall>r \<in> set L. storable r"
  shows "product_list (concat (map line_of L)) = map fields_of L"
proof -
  from assms have "filter (\<lambda>x. strip x \<noteq> []) (map line_of L) = map line_of L"
    by (auto simp: filter_id_conv strip_line)
  with assms show ?thesis
    by (simp add: product_list_def readlines_lines split_line)
qed

text \<open>
  C8, as the code has it.  When every reference is storable, \<open>execute_request\<close> writes
  the result file, makes it the list to download, and \<open>download\<close> reads from it the
  same set of pairs, one entry for each.
\<close>

theorem result_list_roundtrip:
  assumes "\<forall>r \<in> set refs. storable r"
  shows "fst (save_results ev (map jpair refs) st) = Inr ()
       \<and> result_file (snd (save_results ev (map jpair refs) st)) = Some (result_path st)
       \<and> (\<exists>content. files (snd (save_results ev (map jpair refs) st)) (result_path st) = Some content
             \<and> set (product_list content) = fields_of ` set refs
             \<and> length (product_list content) = card (set refs))"
proof -
  let ?ps = "map jpair refs"
  have "set (set_iter ev ?ps) \<subseteq> jpair ` set refs" by (simp add: set_iter_set)
  from map_subset_image [OF this] obtain L where L: "set_iter ev ?ps = map jpair L" "set L \<subseteq> set refs"
    by blast
  from L(1) have "jpair ` set L = jpair ` set refs"
    by (metis set_iter_set set_map)
  with inj_jpair have sL: "set L = set refs" by (simp add: inj_image_eq_iff)
  have "length L = length (set_iter ev ?ps)" using L(1) by simp
  also have "\<dots> = card (jpair ` set refs)" by (simp add: set_iter_length)
  also have "\<dots> = card (set refs)"
    by (rule card_image [OF inj_on_subset [OF inj_jpair subset_UNIV]])
  finally have lL: "length L = card (set refs)" .
  from L(1) have rl: "result_lines (set_iter ev ?ps) = Inr (map line_of L)"
    by (simp add: result_lines_strings)
  from assms sL have "\<forall>r \<in> set L. storable r" by simp
  then have pl: "product_list (concat (map line_of L)) = map fields_of L"
    by (rule product_list_lines)
  from save_results_ok(1,2,3) [OF hashable_strings rl, of st] pl sL lL
  show ?thesis by simp
qed

theorem result_list_roundtrip_witness:
  "(storable (''u1'', ''t1'') \<and> storable (''u2'', ''t2''))
   \<and> fst (save_results offline (map jpair found_twice) fresh) = Inr ()
   \<and> result_file (snd (save_results offline (map jpair found_twice) fresh)) = Some ''/out/result_file.txt''
   \<and> (\<exists>content. files (snd (save_results offline (map jpair found_twice) fresh)) ''/out/result_file.txt''
                   = Some content
             \<and> set (product_list content) = {[''u1'', ''t1''], [''u2'', ''t2'']}
             \<and> length (product_list content) = 2)"
proof -
  have s: "storable (''u1'', ''t1'')" "storable (''u2'', ''t2'')"
    by (simp_all add: storable_def plain_def isspace_def whitespace_def)
  then have h: "\<forall>r \<in> set found_twice. storable r" by (simp add: found_twice_def)
  have p: "result_path fresh = ''/out/result_file.txt''" by code_simp
  have c: "card (set found_twice) = 2" by (simp add: found_twice_def card_insert_if)
  have f: "fields_of ` set found_twice = {[''u1'', ''t1''], [''u2'', ''t2'']}"
    by (auto simp: found_twice_def fields_of_def)
  from result_list_roundtrip [OF h, of offline fresh] s show ?thesis
    unfolding p c f by simp
qed

text \<open>
  A URL with a semicolon: the line written is read back as three fields, not as the pair.
\<close>

theorem separator_in_url:
  "files (snd (save_results offline (map jpair [(''a;b'', ''c'')]) fresh)) ''/out/result_file.txt''
     = Some ''a;b;c\<newline>''
   \<and> product_list ''a;b;c\<newline>'' = [[''a'', ''b'', ''c'']]
   \<and> fields_of (''a;b'', ''c'') = [''a;b'', ''c'']"
  by code_simp

subsection \<open>The parameters of the query\<close>

lemma dict_set_fresh: "k \<notin> set (map fst d) \<Longrightarrow> dict_set d k v = d @ [(k, v)]"
  by (simp add: dict_set_def)

lemma if_str_keys:
  assumes "key \<notin> set (map fst p)"
    and "\<And>s. arg = Some s \<Longrightarrow> s \<noteq> [] \<Longrightarrow> \<exists>v. enc s = Inr v"
  shows "\<exists>p'. if_str arg key enc p = Inr p' \<and> map fst p' = map fst p @ given (truthy arg) key"
proof (cases arg)
  case None
  then show ?thesis by (simp add: if_str_def given_def truthy_def)
next
  case (Some s)
  show ?thesis
  proof (cases "s = []")
    case True
    with Some show ?thesis by (simp add: if_str_def given_def truthy_def)
  next
    case False
    with assms(2) Some obtain v where "enc s = Inr v" by blast
    with Some False assms(1) show ?thesis
      by (simp add: if_str_def given_def truthy_def dict_set_fresh)
  qed
qed

lemma if_str_date:
  assumes "key \<notin> set (map fst p)" and "valid_date arg"
  shows "\<exists>p'. if_str arg key validate_Rfc3339 p = Inr p'
            \<and> map fst p' = map fst p @ given (truthy arg) key"
  using assms(1)
proof (rule if_str_keys)
  fix s assume "arg = Some s" "s \<noteq> []"
  with assms(2) show "\<exists>v. validate_Rfc3339 s = Inr v"
    by (simp add: valid_date_def validate_Rfc3339_def)
qed

lemma if_int_keys:
  assumes "key \<notin> set (map fst p)" and "arg \<noteq> Some 0"
  shows "\<exists>p'. if_int arg key enc p = Inr p' \<and> map fst p' = map fst p @ given (arg \<noteq> None) key"
  using assms by (cases arg) (simp_all add: if_int_def given_def dict_set_fresh)

lemma given_set: "x \<in> set (given b key) \<Longrightarrow> x = key"
  by (simp add: given_def split: if_splits)

lemma url_params_keys:
  assumes "dates_ok f" and "cloudCoverageMax f \<noteq> Some 0"
  shows "\<exists>p. url_params f = Inr p \<and> map fst p = filter_keys f"
proof -
  from assms(1) have d: "valid_date (obsDateMin f)" "valid_date (obsDateMax f)"
    "valid_date (publicationDateMin f)" "valid_date (publicationDateMax f)"
    by (simp_all add: dates_ok_def)
  obtain p1 where 1: "if_str (productIdentifier f) ''productIdentifier''
        (\<lambda>s. Inr (''%25'' @ upper s @ ''%25'')) [] = Inr p1"
      "map fst p1 = given (truthy (productIdentifier f)) ''productIdentifier''"
    using if_str_keys [of "''productIdentifier''" "[]" "productIdentifier f"
        "\<lambda>s. Inr (''%25'' @ upper s @ ''%25'')"] by auto
  obtain p2 where 2: "if_str (productType f) ''productType'' (\<lambda>s. Inr (upper s)) p1 = Inr p2"
      "map fst p2 = map fst p1 @ given (truthy (productType f)) ''productType''"
    using if_str_keys [of "''productType''" p1 "productType f" "\<lambda>s. Inr (upper s)"] 1(2)
    by (auto dest: given_set)
  obtain p3 where 3: "if_str (mission f) ''mission'' (\<lambda>s. Inr (upper s)) p2 = Inr p3"
      "map fst p3 = map fst p2 @ given (truthy (mission f)) ''mission''"
    using if_str_keys [of "''mission''" p2 "mission f" "\<lambda>s. Inr (upper s)"] 1(2) 2(2)
    by (auto dest: given_set)
  obtain p4 where 4: "if_str (obsDateMin f) ''startDate'' validate_Rfc3339 p3 = Inr p4"
      "map fst p4 = map fst p3 @ given (truthy (obsDateMin f)) ''startDate''"
    using if_str_date [of "''startDate''" p3 "obsDateMin f"] d(1) 1(2) 2(2) 3(2)
    by (auto dest: given_set)
  obtain p5 where 5: "if_str (obsDateMax f) ''completionDate'' validate_Rfc3339 p4 = Inr p5"
      "map fst p5 = map fst p4 @ given (truthy (obsDateMax f)) ''completionDate''"
    using if_str_date [of "''completionDate''" p4 "obsDateMax f"] d(2) 1(2) 2(2) 3(2) 4(2)
    by (auto dest: given_set)
  obtain p6 where 6: "if_str (publicationDateMin f) ''publishedAfter'' validate_Rfc3339 p5 = Inr p6"
      "map fst p6 = map fst p5 @ given (truthy (publicationDateMin f)) ''publishedAfter''"
    using if_str_date [of "''publishedAfter''" p5 "publicationDateMin f"] d(3)
      1(2) 2(2) 3(2) 4(2) 5(2)
    by (auto dest: given_set)
  obtain p7 where 7: "if_str (publicationDateMax f) ''publishedBefore'' validate_Rfc3339 p6 = Inr p7"
      "map fst p7 = map fst p6 @ given (truthy (publicationDateMax f)) ''publishedBefore''"
    using if_str_date [of "''publishedBefore''" p6 "publicationDateMax f"] d(4)
      1(2) 2(2) 3(2) 4(2) 5(2) 6(2)
    by (auto dest: given_set)
  obtain p8 where 8: "if_int (cloudCoverageMax f) ''cloudCover''
        (\<lambda>i. ''[0,'' @ str_int i @ '']'') p7 = Inr p8"
      "map fst p8 = map fst p7 @ given (cloudCoverageMax f \<noteq> None) ''cloudCover''"
    using if_int_keys [of "''cloudCover''" p7 "cloudCoverageMax f" "\<lambda>i. ''[0,'' @ str_int i @ '']''"]
      assms(2) 1(2) 2(2) 3(2) 4(2) 5(2) 6(2) 7(2)
    by (auto dest: given_set)
  obtain p9 where 9: "if_str (geometry f) ''geometry'' Inr p8 = Inr p9"
      "map fst p9 = map fst p8 @ given (truthy (geometry f)) ''geometry''"
    using if_str_keys [of "''geometry''" p8 "geometry f" Inr]
      1(2) 2(2) 3(2) 4(2) 5(2) 6(2) 7(2) 8(2)
    by (auto dest: given_set)
  obtain p10 where 10: "if_str (textualSearch f) ''q'' (\<lambda>s. Inr (replace_space s)) p9 = Inr p10"
      "map fst p10 = map fst p9 @ given (truthy (textualSearch f)) ''q''"
    using if_str_keys [of "''q''" p9 "textualSearch f" "\<lambda>s. Inr (replace_space s)"]
      1(2) 2(2) 3(2) 4(2) 5(2) 6(2) 7(2) 8(2) 9(2)
    by (auto dest: given_set)
  have "url_params f = Inr p10"
    unfolding url_params_def param_steps_def
    by (simp only: foldl_Cons foldl_Nil sum.case 1(1) 2(1) 3(1) 4(1) 5(1) 6(1) 7(1) 8(1) 9(1) 10(1))
  moreover have "map fst p10 = filter_keys f"
    by (simp add: filter_keys_def 1(2) 2(2) 3(2) 4(2) 5(2) 6(2) 7(2) 8(2) 9(2) 10(2))
  ultimately show ?thesis by blast
qed

lemma filter_keys_subset:
  "set (filter_keys f) \<subseteq> {''productIdentifier'', ''productType'', ''mission'', ''startDate'',
      ''completionDate'', ''publishedAfter'', ''publishedBefore'', ''cloudCover'', ''geometry'', ''q''}"
  by (auto simp: filter_keys_def dest!: given_set)

lemma static_params_appended:
  assumes "map fst p = filter_keys f"
  shows "dict_update p URL_STATIC_PARAMS = p @ URL_STATIC_PARAMS"
proof -
  from filter_keys_subset [of f] assms
  have "''status'' \<notin> set (map fst p)" "''maxRecords'' \<notin> set (map fst p)"
    "''dataset'' \<notin> set (map fst p)" "''sortParam'' \<notin> set (map fst p)"
    "''sortOrder'' \<notin> set (map fst p)"
    by auto
  then show ?thesis
    by (simp add: dict_update_def URL_STATIC_PARAMS_def dict_set_fresh)
qed

text \<open>
  C4, as the code has it.  When at least one field is given, the dates given are valid
  timestamps and the cloud cover is not 0, \<open>build_request\<close> succeeds.  The dictionary
  \<open>url_params\<close> that it builds has the keys of the fields given, one for each and in their
  order; the update appends the five static parameters to it; and this dictionary, with
  exactly these keys, is the one that is logged and rendered as the query that is set.
\<close>

theorem query_keys:
  assumes "filter_keys f \<noteq> []" and "dates_ok f" and "cloudCoverageMax f \<noteq> Some 0"
  shows "\<exists>p st'. url_params f = Inr p \<and> map fst p = filter_keys f
           \<and> dict_update p URL_STATIC_PARAMS = p @ URL_STATIC_PARAMS
           \<and> build_request f st = (Inr (), st')
           \<and> st' = set_hrsi_http_request (query_string (p @ URL_STATIC_PARAMS))
                     (logging INFO (Params (p @ URL_STATIC_PARAMS))
                        (logging INFO (Text ''Query parameters: '') st))
           \<and> hrsi_http_request st' = Some (query_string (p @ URL_STATIC_PARAMS))
           \<and> (INFO, Params (p @ URL_STATIC_PARAMS)) \<in> set (log st')
           \<and> map fst (p @ URL_STATIC_PARAMS)
               = filter_keys f @ [''status'', ''maxRecords'', ''dataset'', ''sortParam'', ''sortOrder'']"
proof -
  from url_params_keys [OF assms(2,3)] obtain p
    where p: "url_params f = Inr p" "map fst p = filter_keys f" by blast
  with assms(1) have "p \<noteq> []" by auto
  note u = static_params_appended [OF p(2)]
  let ?st' = "set_hrsi_http_request (query_string (p @ URL_STATIC_PARAMS))
                     (logging INFO (Params (p @ URL_STATIC_PARAMS))
                        (logging INFO (Text ''Query parameters: '') st))"
  from p \<open>p \<noteq> []\<close> u have b: "build_request f st = (Inr (), ?st')"
    by (simp add: build_request_def Let_def)
  have h: "hrsi_http_request ?st' = Some (query_string (p @ URL_STATIC_PARAMS))"
    by (simp add: set_hrsi_http_request_def)
  have l: "(INFO, Params (p @ URL_STATIC_PARAMS)) \<in> set (log ?st')"
    by (simp add: set_hrsi_http_request_def logging_def)
  have k: "map fst (p @ URL_STATIC_PARAMS)
             = filter_keys f @ [''status'', ''maxRecords'', ''dataset'', ''sortParam'', ''sortOrder'']"
    by (simp add: p(2) URL_STATIC_PARAMS_def)
  from p u b h l k show ?thesis by blast
qed

theorem query_keys_witness:
  "filter_keys june_snow = [''productType'', ''startDate'', ''cloudCover'']
   \<and> dates_ok june_snow \<and> cloudCoverageMax june_snow = Some 20
   \<and> url_params june_snow
       = Inr [(''productType'', ''FSC''), (''startDate'', ''2020-06-02T00:00:00Z''),
              (''cloudCover'', ''[0,20]'')]
   \<and> (\<exists>p st'. url_params june_snow = Inr p
           \<and> map fst p = [''productType'', ''startDate'', ''cloudCover'']
           \<and> dict_update p URL_STATIC_PARAMS = p @ URL_STATIC_PARAMS
           \<and> build_request june_snow fresh = (Inr (), st')
           \<and> st' = set_hrsi_http_request (query_string (p @ URL_STATIC_PARAMS))
                     (logging INFO (Params (p @ URL_STATIC_PARAMS))
                        (logging INFO (Text ''Query parameters: '') fresh))
           \<and> hrsi_http_request st' = Some (query_string (p @ URL_STATIC_PARAMS))
           \<and> (INFO, Params (p @ URL_STATIC_PARAMS)) \<in> set (log st')
           \<and> map fst (p @ URL_STATIC_PARAMS)
               = [''productType'', ''startDate'', ''cloudCover'',
                  ''status'', ''maxRecords'', ''dataset'', ''sortParam'', ''sortOrder''])"
proof -
  have k: "filter_keys june_snow = [''productType'', ''startDate'', ''cloudCover'']" by code_simp
  have d: "dates_ok june_snow" by code_simp
  have c: "cloudCoverageMax june_snow = Some 20" by (simp add: june_snow_def no_filter_def)
  have u: "url_params june_snow
       = Inr [(''productType'', ''FSC''), (''startDate'', ''2020-06-02T00:00:00Z''),
              (''cloudCover'', ''[0,20]'')]" by code_simp
  from k have n: "filter_keys june_snow \<noteq> []" by simp
  from c have z: "cloudCoverageMax june_snow \<noteq> Some 0" by simp
  from query_keys [OF n d z, of fresh] k d c u show ?thesis by simp
qed

text \<open>A filter whose only field is a date without its time: no query is built.\<close>

theorem malformed_date_rejected:
  "obsDateMin bad_date = Some ''2020-06-02''
   \<and> fst (build_request bad_date fresh) = Inl ValueError
   \<and> hrsi_http_request (snd (build_request bad_date fresh)) = None"
  by code_simp

text \<open>The query of a filter, and the query of a filter whose cloud cover is 0.\<close>

lemma june_snow_query:
  "hrsi_http_request (snd (build_request june_snow fresh)) =
     Some (URL_ROOT @ ''?productType=FSC&startDate=2020-06-02T00:00:00Z&cloudCover=[0,20]''
           @ ''&status=all&maxRecords=1000&dataset=ESA-DATASET&sortParam=startDate&sortOrder=descending'')"
  by code_simp

lemma cloud_zero_dropped:
  "cloudCoverageMax cloud_free = Some 0
   \<and> hrsi_http_request (snd (build_request cloud_free fresh)) =
     Some (URL_ROOT @ ''?productType=FSC''
           @ ''&status=all&maxRecords=1000&dataset=ESA-DATASET&sortParam=startDate&sortOrder=descending'')"
  by code_simp

end
